theory Spec2Isabelle
  imports Main "HOL-Library.Sublist" "HOL-Library.Char_ord" "HOL-Library.List_Lexorder"
begin

section \<open>Python strings\<close>

text \<open>
  A Python \<open>str\<close> is modelled as a \<open>string\<close>: a list of characters, each one a code
  point below 256. On these code points the definitions below are what CPython 3.11
  computes for \<open>str.isspace\<close>, \<open>str.lower\<close>, \<open>str.strip\<close>, \<open>str.split\<close>,
  \<open>str.splitlines\<close> and the operator \<open>in\<close>.
\<close>

definition is_space :: "char \<Rightarrow> bool" where
  "is_space c = (c \<in> set [CHR 0x09, CHR 0x0A, CHR 0x0B, CHR 0x0C, CHR 0x0D,
                          CHR 0x1C, CHR 0x1D, CHR 0x1E, CHR 0x1F, CHR 0x20,
                          CHR 0x85, CHR 0xA0])"

definition lower_char :: "char \<Rightarrow> char" where
  "lower_char c =
     (let n = (of_char c :: nat)
      in if (65 \<le> n \<and> n \<le> 90) \<or> (192 \<le> n \<and> n \<le> 222 \<and> n \<noteq> 215)
         then char_of (n + 32) else c)"

definition lower :: "string \<Rightarrow> string" where
  "lower s = map lower_char s"

definition lstrip :: "string \<Rightarrow> string" where
  "lstrip s = dropWhile is_space s"

definition rstrip :: "string \<Rightarrow> string" where
  "rstrip s = rev (dropWhile is_space (rev s))"

definition strip :: "string \<Rightarrow> string" where
  "strip s = rstrip (lstrip s)"

text \<open>\<open>s.split(sep)\<close> for a separator of one character: never an empty list.\<close>

fun split :: "char \<Rightarrow> string \<Rightarrow> string list" where
  "split sep [] = [[]]"
| "split sep (c # cs) =
     (if c = sep then [] # split sep cs
      else (case split sep cs of
              [] \<Rightarrow> [[c]]
            | p # ps \<Rightarrow> (c # p) # ps))"

definition is_linebreak :: "char \<Rightarrow> bool" where
  "is_linebreak c = (c \<in> set [CHR 0x0A, CHR 0x0B, CHR 0x0C, CHR 0x0D,
                              CHR 0x1C, CHR 0x1D, CHR 0x1E, CHR 0x85])"

text \<open>
  \<open>s.splitlines()\<close>: the first argument is the line read so far, reversed. A carriage
  return followed by a line feed is one boundary, and no empty line is added after the last
  boundary.
\<close>

fun lines_from :: "string \<Rightarrow> string \<Rightarrow> string list" where
  "lines_from acc [] = (if acc = [] then [] else [rev acc])"
| "lines_from acc (c # cs) =
     (if is_linebreak c then
        (case cs of
           d # ds \<Rightarrow> if c = CHR 0x0D \<and> d = CHR 0x0A
                     then rev acc # lines_from [] ds
                     else rev acc # lines_from [] cs
         | [] \<Rightarrow> rev acc # lines_from [] cs)
      else lines_from (c # acc) cs)"

definition splitlines :: "string \<Rightarrow> string list" where
  "splitlines s = lines_from [] s"

text \<open>\<open>pat in s\<close> on strings: \<open>pat\<close> occurs in \<open>s\<close> as a contiguous run.\<close>

fun contains :: "string \<Rightarrow> string \<Rightarrow> bool" where
  "contains pat [] = (pat = [])"
| "contains pat (c # cs) = (prefix pat (c # cs) \<or> contains pat cs)"

definition startswith :: "string \<Rightarrow> string \<Rightarrow> bool" where
  "startswith s p = prefix p s"

definition endswith :: "string \<Rightarrow> string \<Rightarrow> bool" where
  "endswith s p = suffix p s"

text \<open>
  The exceptions of the program: \<open>ValueError\<close> from the URL parser, \<open>IndexError\<close>
  from a list index out of range, \<open>RequestException\<close> from an HTTP request.
\<close>

datatype py_error = ValueError | IndexError | RequestException

definition bind_err :: "py_error + 'a \<Rightarrow> ('a \<Rightarrow> py_error + 'b) \<Rightarrow> py_error + 'b" where
  "bind_err r f = (case r of Inl e \<Rightarrow> Inl e | Inr v \<Rightarrow> f v)"

text \<open>\<open>xs[i]\<close> for an index that is not negative.\<close>

definition index :: "'a list \<Rightarrow> nat \<Rightarrow> py_error + 'a" where
  "index xs i = (if i < length xs then Inr (xs ! i) else Inl IndexError)"

section \<open>The standard library's URL parser\<close>

text \<open>
  \<open>_is_valid_source\<close> calls \<open>urllib.parse.urlparse\<close> and reads the scheme and the
  network location of the result. The definitions of this section follow
  \<open>urllib/parse.py\<close> and \<open>ipaddress.py\<close> of CPython 3.12.3 for those two components;
  the path, query and fragment are not computed, nothing in their computation raises.
  Releases of the library that have no \<open>_check_bracketed_netloc\<close> differ from these
  definitions on network locations that hold both an opening and a closing bracket, and
  nowhere else.
\<close>

definition is_ascii_digit :: "char \<Rightarrow> bool" where
  "is_ascii_digit c = (48 \<le> (of_char c :: nat) \<and> (of_char c :: nat) \<le> 57)"

definition is_ascii_alpha :: "char \<Rightarrow> bool" where
  "is_ascii_alpha c =
     (let n = (of_char c :: nat) in (65 \<le> n \<and> n \<le> 90) \<or> (97 \<le> n \<and> n \<le> 122))"

definition is_hex_digit :: "char \<Rightarrow> bool" where
  "is_hex_digit c =
     (let n = (of_char c :: nat)
      in (48 \<le> n \<and> n \<le> 57) \<or> (65 \<le> n \<and> n \<le> 70) \<or> (97 \<le> n \<and> n \<le> 102))"

definition is_scheme_char :: "char \<Rightarrow> bool" where
  "is_scheme_char c =
     (is_ascii_alpha c \<or> is_ascii_digit c \<or> c = CHR ''+'' \<or> c = CHR ''-'' \<or> c = CHR ''.'')"

text \<open>\<open>int(s, 10)\<close> on a string of ASCII digits.\<close>

definition decimal_value :: "string \<Rightarrow> nat" where
  "decimal_value s = foldl (\<lambda>v c. 10 * v + (of_char c - 48)) 0 s"

text \<open>\<open>IPv4Address._parse_octet\<close> returns, rather than raises.\<close>

definition parse_octet_ok :: "string \<Rightarrow> bool" where
  "parse_octet_ok s =
     (s \<noteq> [] \<and> list_all is_ascii_digit s \<and> length s \<le> 3
      \<and> \<not> (s \<noteq> ''0'' \<and> hd s = CHR ''0'') \<and> decimal_value s \<le> 255)"

text \<open>\<open>IPv4Address(s)\<close> returns, rather than raises \<open>AddressValueError\<close>.\<close>

definition ipv4_ok :: "string \<Rightarrow> bool" where
  "ipv4_ok s =
     (CHR ''/'' \<notin> set s \<and> s \<noteq> [] \<and> length (split CHR ''.'' s) = 4
      \<and> list_all parse_octet_ok (split CHR ''.'' s))"

text \<open>
  \<open>IPv6Address._parse_hextet\<close> returns: hexadecimal digits only, at most four of them,
  and at least one, since \<open>int('', 16)\<close> raises.
\<close>

definition parse_hextet_ok :: "string \<Rightarrow> bool" where
  "parse_hextet_ok s = (list_all is_hex_digit s \<and> length s \<le> 4 \<and> s \<noteq> [])"

text \<open>
  The loop of \<open>_ip_int_from_string\<close> that looks for the empty part of a \<open>::\<close> among the
  inner parts: \<open>None\<close> when a second one is found (the source raises), otherwise the
  index found, if any.
\<close>

fun find_skip :: "string list \<Rightarrow> nat list \<Rightarrow> nat option \<Rightarrow> nat option option" where
  "find_skip parts [] skip_index = Some skip_index"
| "find_skip parts (i # is) skip_index =
     (if parts ! i = [] then
        (if skip_index \<noteq> None then None else find_skip parts is (Some i))
      else find_skip parts is skip_index)"

text \<open>
  \<open>IPv6Address._ip_int_from_string\<close> returns. An IPv4-style last part is replaced by the
  two hextets of its value, which are written by \<open>'%x'\<close> from 16-bit numbers and so always
  parse; the model puts \<open>0\<close> for both, only their validity is read here.
\<close>

definition ipv6_int_ok :: "string \<Rightarrow> bool" where
  "ipv6_int_ok ip_str =
     (if ip_str = [] then False
      else let parts0 = split CHR '':'' ip_str in
        if length parts0 < 3 then False
        else if CHR ''.'' \<in> set (last parts0) \<and> \<not> ipv4_ok (last parts0) then False
        else let parts = (if CHR ''.'' \<in> set (last parts0)
                          then butlast parts0 @ [''0'', ''0''] else parts0);
                 n = length parts in
          if n > 9 then False
          else (case find_skip parts [1 ..< n - 1] None of
                  None \<Rightarrow> False
                | Some (Some skip_index) \<Rightarrow>
                    let parts_hi0 = skip_index;
                        parts_lo0 = n - skip_index - 1;
                        parts_hi = (if hd parts = [] then parts_hi0 - 1 else parts_hi0);
                        parts_lo = (if last parts = [] then parts_lo0 - 1 else parts_lo0)
                    in if hd parts = [] \<and> parts_hi \<noteq> 0 then False
                       else if last parts = [] \<and> parts_lo \<noteq> 0 then False
                       else if 8 < parts_hi + parts_lo + 1 then False
                       else list_all parse_hextet_ok (take parts_hi parts)
                            \<and> list_all parse_hextet_ok (drop (n - parts_lo) parts)
                | Some None \<Rightarrow>
                    if n \<noteq> 8 then False
                    else if hd parts = [] then False
                    else if last parts = [] then False
                    else list_all parse_hextet_ok parts))"

text \<open>\<open>IPv6Address(s)\<close> returns: no slash, a well-formed scope id if any, a valid address.\<close>

definition ipv6_ok :: "string \<Rightarrow> bool" where
  "ipv6_ok s =
     (if CHR ''/'' \<in> set s then False
      else let addr = takeWhile (\<lambda>c. c \<noteq> CHR ''%'') s;
               after = dropWhile (\<lambda>c. c \<noteq> CHR ''%'') s in
        if after \<noteq> [] \<and> (tl after = [] \<or> CHR ''%'' \<in> set (tl after)) then False
        else ipv6_int_ok addr)"

text \<open>
  \<open>_check_bracketed_host\<close> returns: the pattern \<open>\Av[a-fA-F0-9]+\..+\Z\<close> for a host
  that starts with \<open>v\<close>, otherwise an address that \<open>ipaddress.ip_address\<close> accepts and
  that is not an IPv4 address (which is tried first).
\<close>

definition check_bracketed_host_ok :: "string \<Rightarrow> bool" where
  "check_bracketed_host_ok hostname =
     (if startswith hostname ''v'' then
        (let digits = takeWhile is_hex_digit (tl hostname);
             rest = dropWhile is_hex_digit (tl hostname)
         in digits \<noteq> [] \<and> rest \<noteq> [] \<and> hd rest = CHR ''.'' \<and> tl rest \<noteq> []
            \<and> CHR 0x0A \<notin> set (tl rest))
      else if ipv4_ok hostname then False
      else ipv6_ok hostname)"

text \<open>
  \<open>_check_bracketed_netloc\<close> returns. The host and port are the text after the last
  \<open>@\<close>. When they hold an opening bracket, nothing may stand before it, and what
  follows the closing bracket is empty or starts with a colon; the host is the text
  between the brackets. When they hold none, the host is the text before the first colon.
\<close>

definition check_bracketed_netloc_ok :: "string \<Rightarrow> bool" where
  "check_bracketed_netloc_ok nl =
     (let hostname_and_port = rev (takeWhile (\<lambda>c. c \<noteq> CHR ''@'') (rev nl))
      in if CHR ''['' \<in> set hostname_and_port then
           (let before_bracket = takeWhile (\<lambda>c. c \<noteq> CHR ''['') hostname_and_port;
                bracketed = drop 1 (dropWhile (\<lambda>c. c \<noteq> CHR ''['') hostname_and_port);
                hostname = takeWhile (\<lambda>c. c \<noteq> CHR '']'') bracketed;
                port = drop 1 (dropWhile (\<lambda>c. c \<noteq> CHR '']'') bracketed)
            in if before_bracket \<noteq> [] then False
               else if port \<noteq> [] \<and> \<not> startswith port '':'' then False
               else check_bracketed_host_ok hostname)
         else check_bracketed_host_ok
                (takeWhile (\<lambda>c. c \<noteq> CHR '':'') hostname_and_port))"

record parse_result =
  scheme :: string
  netloc :: string

definition is_c0_or_space :: "char \<Rightarrow> bool" where
  "is_c0_or_space c = ((of_char c :: nat) \<le> 32)"

definition is_unsafe_url_byte :: "char \<Rightarrow> bool" where
  "is_unsafe_url_byte c = (c = CHR 0x09 \<or> c = CHR 0x0D \<or> c = CHR 0x0A)"

definition is_netloc_delim :: "char \<Rightarrow> bool" where
  "is_netloc_delim c = (c = CHR ''/'' \<or> c = CHR ''?'' \<or> c = CHR ''#'')"

text \<open>
  \<open>urlsplit\<close>, first half: leading C0 controls and spaces are dropped, then tab, carriage
  return and line feed are removed wherever they are.
\<close>

definition clean_url :: "string \<Rightarrow> string" where
  "clean_url url = filter (\<lambda>c. \<not> is_unsafe_url_byte c) (dropWhile is_c0_or_space url)"

text \<open>
  The scheme and what follows it: the text before the first colon is the scheme when it is
  not empty, starts with an ASCII letter and has scheme characters only; it is lowered.
\<close>

definition split_scheme :: "string \<Rightarrow> string \<times> string" where
  "split_scheme url =
     (let pre = takeWhile (\<lambda>c. c \<noteq> CHR '':'') url
      in if CHR '':'' \<in> set url \<and> pre \<noteq> [] \<and> is_ascii_alpha (hd pre)
            \<and> list_all is_scheme_char pre
         then (lower pre, drop (length pre + 1) url)
         else ('''', url))"

text \<open>
  The network location, and the checks on its brackets. \<open>_checknetloc\<close> raises only when
  the NFKC form of a non-ASCII network location holds one of \<open>/?#@:\<close>; no character
  of a \<open>string\<close>, a code point below 256, normalises to one of them, so it never raises
  on the strings of this theory.
\<close>

definition urlparse :: "string \<Rightarrow> py_error + parse_result" where
  "urlparse url0 =
     (let (sch, url) = split_scheme (clean_url url0) in
      if take 2 url = ''//'' then
        (let nl = takeWhile (\<lambda>c. \<not> is_netloc_delim c) (drop 2 url);
             has_open = (CHR ''['' \<in> set nl);
             has_close = (CHR '']'' \<in> set nl)
         in if (has_open \<and> \<not> has_close) \<or> (has_close \<and> \<not> has_open) then Inl ValueError
            else if has_open \<and> has_close \<and> \<not> check_bracketed_netloc_ok nl
                 then Inl ValueError
            else Inr \<lparr> scheme = sch, netloc = nl \<rparr>)
      else Inr \<lparr> scheme = sch, netloc = '''' \<rparr>)"

section \<open>Trust policy\<close>

definition trusted_domains :: "string list" where
  "trusted_domains =
     [''pharmacompass.com'', ''pharmaoffer.com'', ''orangebook.fda.gov'', ''fda.gov'',
      ''ema.europa.eu'', ''cdsco.gov.in'', ''who.int'', ''dcat.org'',
      ''scrip.pharmaintelligence.informa.com'']"

definition domain_trusted :: "string \<Rightarrow> bool" where
  "domain_trusted domain =
     list_ex (\<lambda>trusted. domain = trusted \<or> endswith domain (CHR ''.'' # trusted))
       trusted_domains"

definition is_valid_source :: "string \<Rightarrow> py_error + bool" where
  "is_valid_source url =
     (if url = [] then Inr False
      else (case urlparse (strip url) of
              Inl e \<Rightarrow> Inl e
            | Inr parsed \<Rightarrow>
                if lower (scheme parsed) \<noteq> ''https'' then Inr False
                else Inr (domain_trusted (lower (netloc parsed)))))"

section \<open>Response parser\<close>

record manufacturer_record =
  api_name :: string
  manufacturer :: string
  country :: string
  usdmf :: string
  cep :: string
  source_name :: string
  source_url :: string

text \<open>The test that selects a candidate table row.\<close>

definition is_table_row :: "string \<Rightarrow> bool" where
  "is_table_row line =
     (CHR ''|'' \<in> set line \<and> \<not> startswith (lower line) ''| manufacturers''
      \<and> \<not> startswith line ''|---'')"

definition raw_parts :: "string \<Rightarrow> string list" where
  "raw_parts line = map strip (split CHR ''|'' line)"

text \<open>\<open>raw_parts[1:-1]\<close>\<close>

definition parts :: "string \<Rightarrow> string list" where
  "parts line = butlast (tl (raw_parts line))"

definition yes_no :: "string \<Rightarrow> string" where
  "yes_no v = (if lower (strip v) \<in> set [''yes'', ''t''] then ''Yes'' else ''No'')"

text \<open>
  The body of the loop of \<open>_extract_manufacturers\<close> on one line: \<open>Inr None\<close> where
  the source goes on to the next line with nothing appended, \<open>Inr (Some r)\<close> where it
  appends \<open>r\<close>, \<open>Inl e\<close> where it raises.
\<close>

definition extract_row ::
  "string \<Rightarrow> string \<Rightarrow> string set \<Rightarrow> string \<Rightarrow> py_error + manufacturer_record option" where
  "extract_row api cntry existing_lower line =
     (if is_table_row line then
        if length (raw_parts line) < 8 then Inr None
        else if length (parts line) < 6 then Inr None
        else
          bind_err (index (parts line) 0) (\<lambda>manu_name.
            if lower manu_name \<in> existing_lower then Inr None
            else
              bind_err (index (parts line) 1) (\<lambda>country_val.
              bind_err (index (parts line) 2) (\<lambda>usdmf_raw.
              bind_err (index (parts line) 3) (\<lambda>cep_raw.
              bind_err (index (parts line) 4) (\<lambda>src_name.
              bind_err (index (parts line) 5) (\<lambda>src_url.
              bind_err (is_valid_source src_url) (\<lambda>valid.
                if \<not> valid then Inr None
                else if contains (lower cntry) (lower country_val) then
                  Inr (Some \<lparr> api_name = api, manufacturer = manu_name,
                               country = country_val, usdmf = yes_no usdmf_raw,
                               cep = yes_no cep_raw, source_name = src_name,
                               source_url = src_url \<rparr>)
                else Inr None)))))))
      else Inr None)"

text \<open>The loop over the lines, with the list \<open>manufacturers\<close> built so far.\<close>

fun extract_rows ::
  "string \<Rightarrow> string \<Rightarrow> string set \<Rightarrow> string list \<Rightarrow> manufacturer_record list
   \<Rightarrow> py_error + manufacturer_record list" where
  "extract_rows api cntry existing_lower [] manufacturers = Inr manufacturers"
| "extract_rows api cntry existing_lower (line # lines) manufacturers =
     (case extract_row api cntry existing_lower line of
        Inl e \<Rightarrow> Inl e
      | Inr None \<Rightarrow> extract_rows api cntry existing_lower lines manufacturers
      | Inr (Some r) \<Rightarrow> extract_rows api cntry existing_lower lines (manufacturers @ [r]))"

text \<open>\<open>markdown_output\<close> is \<open>None\<close> or a string.\<close>

definition extract_manufacturers ::
  "string option \<Rightarrow> string \<Rightarrow> string \<Rightarrow> string list \<Rightarrow> py_error + manufacturer_record list" where
  "extract_manufacturers markdown_output api cntry skip_batch =
     (case markdown_output of
        None \<Rightarrow> Inr []
      | Some text \<Rightarrow>
          if text = [] then Inr []
          else extract_rows api cntry (set (map lower skip_batch)) (splitlines text) [])"

section \<open>Query planner\<close>

text \<open>\<open>range(0, stop, step)\<close> for a positive step.\<close>

definition range_step :: "nat \<Rightarrow> nat \<Rightarrow> nat list" where
  "range_step stop step = map (\<lambda>k. k * step) [0 ..< (stop + step - 1) div step]"

text \<open>
  The list \<open>batches\<close> of \<open>discover\<close>: the slices \<open>xs[i : i + 30]\<close> for \<open>i\<close> in
  \<open>range(0, len(xs), 30)\<close>, or the one empty batch when there is no slice.
\<close>

definition batches :: "'a list \<Rightarrow> 'a list list" where
  "batches xs =
     (let slices = map (\<lambda>i. take 30 (drop i xs)) (range_step (length xs) 30)
      in if slices = [] then [[]] else slices)"

text \<open>
  A row of the store is a dictionary from field names to strings; \<open>get\<close> is
  \<open>rec.get(key)\<close>, with \<open>None\<close> for a missing key or a null value.
\<close>

type_synonym row = "(string \<times> string) list"

definition get :: "row \<Rightarrow> string \<Rightarrow> string option" where
  "get r key = map_of r key"

text \<open>\<open>x or ""\<close> and the truth value of \<open>x\<close>, for \<open>x\<close> a string or \<open>None\<close>.\<close>

definition or_empty :: "string option \<Rightarrow> string" where
  "or_empty x = (case x of None \<Rightarrow> [] | Some s \<Rightarrow> s)"

definition truthy :: "string option \<Rightarrow> bool" where
  "truthy x = (case x of None \<Rightarrow> False | Some s \<Rightarrow> s \<noteq> [])"

text \<open>The list \<open>skip_list\<close> of \<open>discover\<close>: the sorted set of the names already known.\<close>

definition skip_list :: "row list \<Rightarrow> string list" where
  "skip_list existing =
     sorted_list_of_set
       (set (map (\<lambda>r. lower (strip (or_empty (get r ''manufacturer''))))
               (filter (\<lambda>r. truthy (get r ''manufacturer'')) existing)))"

text \<open>\<open>sep.join(xs)\<close>\<close>

fun join :: "string \<Rightarrow> string list \<Rightarrow> string" where
  "join sep [] = []"
| "join sep [x] = x"
| "join sep (x # y # ys) = x @ sep @ join sep (y # ys)"

definition build_prompt :: "string \<Rightarrow> string \<Rightarrow> string \<Rightarrow> string \<Rightarrow> string" where
  "build_prompt api cntry skip_clause trusted_clause =
     concat
       [[CHR 0x0A],
        ''You are a pharmaceutical business intelligence expert. '',
        ''Identify legitimate API manufacturers for '',
        [CHR 0x22], api, [CHR 0x22], '' located in '', [CHR 0x22], cntry, [CHR 0x22], ''.'',
        [CHR 0x0A, CHR 0x0A],
        ''Skip these known manufacturers: '', skip_clause, [CHR 0x0A, CHR 0x0A],
        ''Requirements:'', [CHR 0x0A],
        ''- Provide only manufacturers that produce the API (not formulations) '',
        ''and operate in '', cntry, ''.'', [CHR 0x0A],
        ''- Verify each manufacturer using information from trusted public sources ('',
        trusted_clause,
        ''). If no trusted citation exists, exclude the manufacturer.'', [CHR 0x0A],
        ''- Return results as a markdown table with columns:'', [CHR 0x0A],
        ''  | manufacturers | country | usdmf | cep | source_name | source_url |'',
        [CHR 0x0A],
        ''- Provide HTTPS URLs pointing directly to the evidence page. '',
        ''Prefer regulatory listings or manufacturer catalogs.'', [CHR 0x0A],
        ''- usdmf/cep should be '', [CHR 0x22], ''Yes'', [CHR 0x22], ''/'',
        [CHR 0x22], ''No'', [CHR 0x22], ''/'', [CHR 0x22], ''Unknown'', [CHR 0x22], ''.'',
        [CHR 0x0A],
        ''- Do not include duplicate manufacturers or any entry from the skip list.'',
        [CHR 0x0A]]"

section \<open>Discovery orchestrator\<close>

text \<open>
  The store and the model client are outside the program. Their state is a value of an
  arbitrary type \<open>'w\<close>; the run threads it through every call that can change it and
  keeps a trace of the calls made. A query of the store reads the state and leaves it as
  it is. \<open>time.sleep\<close> has no effect on either.
\<close>

datatype event =
    RestGet
  | ServiceQuery
  | RestPost
  | ServiceInsert
  | ModelCall "string list"

record 'w run_state =
  world :: 'w
  trace :: "event list"

text \<open>
  What \<open>chat.completions.create\<close> does: it raises, or it returns a response whose
  choices each carry a message content (a string or \<open>None\<close>).
\<close>

datatype chat_response = ClientRaises | Choices "string option list"

record payload = manufacturer_record +
  source_file :: string
  imported_at :: string

record insert_result =
  inserted :: int
  rows :: "row list"

text \<open>
  The service object. \<open>groq_client\<close> is \<open>None\<close> when no key is configured;
  \<open>use_supabase\<close> is the value of \<open>_use_supabase()\<close>; \<open>rest_get\<close> and \<open>rest_post\<close>
  are the two HTTP requests with \<open>raise_for_status\<close> and the decoding of the reply;
  \<open>utcnow\<close> is the clock.

  Modelled from the spec: the injected \<open>manufacturer_service\<close>, which is not among the
  sources, with its two operations \<open>query(api_name, country)\<close>, which returns a list of
  rows, and \<open>insert_records(records, source_label)\<close>, which returns the count and the
  rows as stored.
\<close>

record 'w service =
  groq_client :: "('w \<Rightarrow> string \<Rightarrow> chat_response \<times> 'w) option"
  use_supabase :: bool
  rest_get :: "'w \<Rightarrow> string \<Rightarrow> string \<Rightarrow> py_error + row list"
  rest_post :: "'w \<Rightarrow> payload list \<Rightarrow> (py_error + row list) \<times> 'w"
  utcnow :: "'w \<Rightarrow> string"
  manufacturer_service_query :: "'w \<Rightarrow> string \<Rightarrow> string \<Rightarrow> row list"
  manufacturer_service_insert_records ::
    "'w \<Rightarrow> manufacturer_record list \<Rightarrow> string \<Rightarrow> insert_result \<times> 'w"

definition log :: "event \<Rightarrow> 'w run_state \<Rightarrow> 'w run_state" where
  "log e st = st\<lparr> trace := trace st @ [e] \<rparr>"

definition fetch_existing_records ::
  "'w service \<Rightarrow> string \<Rightarrow> string \<Rightarrow> 'w run_state \<Rightarrow> row list \<times> 'w run_state" where
  "fetch_existing_records self api cntry st =
     (if use_supabase self then
        (case rest_get self (world st) api cntry of
           Inr data \<Rightarrow> (data, log RestGet st)
         | Inl e \<Rightarrow>
             (manufacturer_service_query self (world st) api cntry,
              log ServiceQuery (log RestGet st)))
      else (manufacturer_service_query self (world st) api cntry, log ServiceQuery st))"

definition service_insert ::
  "'w service \<Rightarrow> manufacturer_record list \<Rightarrow> string \<Rightarrow> 'w run_state
   \<Rightarrow> insert_result \<times> 'w run_state" where
  "service_insert self records source_label st =
     (let (res, w) = manufacturer_service_insert_records self (world st) records source_label
      in (res, log ServiceInsert (st\<lparr> world := w \<rparr>)))"

definition insert_records ::
  "'w service \<Rightarrow> manufacturer_record list \<Rightarrow> string \<Rightarrow> 'w run_state
   \<Rightarrow> insert_result \<times> 'w run_state" where
  "insert_records self records source_label st =
     (if records = [] then (\<lparr> inserted = 0, rows = [] \<rparr>, st)
      else if use_supabase self then
        (let import_ts = utcnow self (world st);
             payload = map (\<lambda>r. \<lparr> api_name = api_name r, manufacturer = manufacturer r,
                                    country = country r, usdmf = usdmf r, cep = cep r,
                                    source_name = source_name r, source_url = source_url r,
                                    source_file = source_label, imported_at = import_ts \<rparr>)
                         records;
             (res, w) = rest_post self (world st) payload;
             st' = log RestPost (st\<lparr> world := w \<rparr>)
         in case res of
              Inr data \<Rightarrow> (\<lparr> inserted = int (length data), rows = data \<rparr>, st')
            | Inl e \<Rightarrow> service_insert self records source_label st')
      else service_insert self records source_label st)"

definition run_groq_extraction ::
  "'w service \<Rightarrow> string \<Rightarrow> string \<Rightarrow> string list \<Rightarrow> 'w run_state
   \<Rightarrow> string option \<times> 'w run_state" where
  "run_groq_extraction self api cntry skip st =
     (case groq_client self of
        None \<Rightarrow> (None, st)
      | Some create \<Rightarrow>
          (let skip_clause = (if skip \<noteq> [] then join '', '' (take 10 skip) else ''None'');
               trusted_clause = join '', '' (sort trusted_domains);
               prompt = build_prompt api cntry skip_clause trusted_clause;
               (response, w) = create (world st) prompt;
               st' = log (ModelCall skip) (st\<lparr> world := w \<rparr>)
           in case response of
                ClientRaises \<Rightarrow> (None, st')
              | Choices cs \<Rightarrow> (if cs \<noteq> [] then hd cs else None, st')))"

text \<open>Whatever the parser raises is caught here, and the batch then yields nothing.\<close>

definition discover_with_groq ::
  "'w service \<Rightarrow> string \<Rightarrow> string \<Rightarrow> string list \<Rightarrow> 'w run_state
   \<Rightarrow> manufacturer_record list \<times> 'w run_state" where
  "discover_with_groq self api cntry skip_batch st =
     (if groq_client self = None then ([], st)
      else
        (let (groq_output, st') = run_groq_extraction self api cntry skip_batch st
         in if truthy groq_output then
              (case extract_manufacturers groq_output api cntry skip_batch of
                 Inr found \<Rightarrow> (found, st')
               | Inl e \<Rightarrow> ([], st'))
            else ([], st')))"

text \<open>The loop over the batches, with the list \<open>discovered_records\<close> built so far.\<close>

fun discover_batches ::
  "'w service \<Rightarrow> string \<Rightarrow> string \<Rightarrow> string list list \<Rightarrow> manufacturer_record list
   \<Rightarrow> 'w run_state \<Rightarrow> manufacturer_record list \<times> 'w run_state" where
  "discover_batches self api cntry [] discovered st = (discovered, st)"
| "discover_batches self api cntry (batch # rest) discovered st =
     (let (found, st') = discover_with_groq self api cntry batch st;
          discovered' = discovered @ found
      in if discovered' \<noteq> [] then (discovered', st')
         else discover_batches self api cntry rest discovered' st')"

datatype discovery_result =
    Failure string
  | Success "row list" "row list" "row list" int

text \<open>
  \<open>Failure error\<close> is the dictionary with \<open>success = False\<close>;
  \<open>Success existing_records new_records all_records inserted_count\<close> is the one with
  \<open>success = True\<close>.
\<close>

definition discover ::
  "'w service \<Rightarrow> string option \<Rightarrow> string option \<Rightarrow> 'w run_state
   \<Rightarrow> discovery_result \<times> 'w run_state" where
  "discover self api_name_arg country_arg st =
     (let api = strip (or_empty api_name_arg);
          cntry = strip (or_empty country_arg)
      in if api = [] \<or> cntry = [] then
           (Failure ''API name and country are required for discovery.'', st)
         else
           (let (existing, st1) = fetch_existing_records self api cntry st;
                (discovered, st2) =
                   discover_batches self api cntry (batches (skip_list existing)) [] st1;
                (insert_result, st3) =
                   (if discovered \<noteq> [] then
                      insert_records self discovered ''groq_discovery'' st2
                    else (\<lparr> inserted = 0, rows = [] \<rparr>, st2));
                (refreshed, st4) = fetch_existing_records self api cntry st3
            in (Success existing (rows insert_result) refreshed (inserted insert_result),
                st4)))"

section \<open>Reading a trace, and a store held in memory\<close>

text \<open>The batches of the model calls of a trace, in the order of the calls.\<close>

fun model_calls :: "event list \<Rightarrow> string list list" where
  "model_calls [] = []"
| "model_calls (ModelCall b # es) = b # model_calls es"
| "model_calls (e # es) = model_calls es"

text \<open>
  An environment to run the orchestrator in: no REST interface, a store whose state is
  the list of its rows, whose query returns them all and whose insert appends one row for
  each record; the model client, when there is one, answers every prompt with the same
  text.
\<close>

definition stored_row :: "manufacturer_record \<Rightarrow> string \<Rightarrow> row" where
  "stored_row r label =
     [(''api_name'', api_name r), (''manufacturer'', manufacturer r),
      (''country'', country r), (''usdmf'', usdmf r), (''cep'', cep r),
      (''source_name'', source_name r), (''source_url'', source_url r),
      (''source_file'', label)]"

definition memory_service :: "string option \<Rightarrow> (row list) service" where
  "memory_service answer =
     \<lparr> groq_client =
         (case answer of
            None \<Rightarrow> None
          | Some body \<Rightarrow> Some (\<lambda>w prompt. (Choices [Some body], w))),
       use_supabase = False,
       rest_get = (\<lambda>w api cntry. Inl RequestException),
       rest_post = (\<lambda>w p. (Inl RequestException, w)),
       utcnow = (\<lambda>w. ''2024-01-01T00:00:00''),
       manufacturer_service_query = (\<lambda>w api cntry. w),
       manufacturer_service_insert_records =
         (\<lambda>w records label.
            (\<lparr> inserted = int (length records),
               rows = map (\<lambda>r. stored_row r label) records \<rparr>,
             w @ map (\<lambda>r. stored_row r label) records)) \<rparr>"

text \<open>
  A table of two rows, and a store that knows sixty-one manufacturers, the two of the
  table among them; \<open>known_names\<close> is its skip list.
\<close>

definition two_rows :: string where
  "two_rows =
     ''| manufacturers | country | usdmf | cep | source_name | source_url |\<newline>'' @
     ''|---|---|---|---|---|---|\<newline>'' @
     ''| Acme Labs | India | Yes | No | FDA | https://www.fda.gov/a |\<newline>'' @
     ''| Beta Pharma | Indiana-based | t | Unknown | WHO | HTTPS://who.int/b |''"

definition known_names :: "string list" where
  "known_names =
     [''acme labs'', ''beta pharma'', ''maker 00'', ''maker 01'', ''maker 02'',
      ''maker 03'', ''maker 04'', ''maker 05'', ''maker 06'', ''maker 07'', ''maker 08'',
      ''maker 09'', ''maker 10'', ''maker 11'', ''maker 12'', ''maker 13'', ''maker 14'',
      ''maker 15'', ''maker 16'', ''maker 17'', ''maker 18'', ''maker 19'', ''maker 20'',
      ''maker 21'', ''maker 22'', ''maker 23'', ''maker 24'', ''maker 25'', ''maker 26'',
      ''maker 27'', ''maker 28'', ''maker 29'', ''maker 30'', ''maker 31'', ''maker 32'',
      ''maker 33'', ''maker 34'', ''maker 35'', ''maker 36'', ''maker 37'', ''maker 38'',
      ''maker 39'', ''maker 40'', ''maker 41'', ''maker 42'', ''maker 43'', ''maker 44'',
      ''maker 45'', ''maker 46'', ''maker 47'', ''maker 48'', ''maker 49'', ''maker 50'',
      ''maker 51'', ''maker 52'', ''maker 53'', ''maker 54'', ''maker 55'', ''maker 56'',
      ''maker 57'', ''maker 58'']"

definition known_rows :: "row list" where
  "known_rows =
     [(''manufacturer'', ''Acme Labs'')] # [(''manufacturer'', '' Beta Pharma '')] #
     map (\<lambda>name. [(''manufacturer'', name)]) (drop 2 known_names)"

text \<open>
  A table of a good row followed by a row whose source URL opens a bracket and does not
  close it.
\<close>

definition broken_rows :: string where
  "broken_rows =
     ''| Acme Labs | India | Yes | No | FDA | https://www.fda.gov/a |\<newline>'' @
     ''| Beta Pharma | India | Yes | No | FDA | https://[fda.gov |''"

section \<open>Evaluation and properties of the string functions\<close>

text \<open>Definitions to unfold when a function is evaluated on a concrete input.\<close>

lemmas string_eval = is_space_def lower_char_def lower_def lstrip_def rstrip_def strip_def
  is_linebreak_def splitlines_def startswith_def endswith_def char_of_def bit_0
  suffix_to_prefix

lemmas url_eval = is_ascii_digit_def is_ascii_alpha_def is_hex_digit_def is_scheme_char_def
  is_c0_or_space_def is_unsafe_url_byte_def is_netloc_delim_def clean_url_def
  split_scheme_def urlparse_def trusted_domains_def domain_trusted_def is_valid_source_def
  Let_def

lemmas parser_eval = is_table_row_def raw_parts_def parts_def yes_no_def index_def
  bind_err_def extract_row_def extract_manufacturers_def

lemmas memory_eval = memory_service_def fetch_existing_records_def insert_records_def
  service_insert_def log_def

lemma lower_char_idem: "lower_char (lower_char c) = lower_char c"
  by (auto simp: lower_char_def Let_def)

lemma lower_idem: "lower (lower s) = lower s"
  by (simp add: lower_def lower_char_idem)

lemma contains_iff: "contains pat s \<longleftrightarrow> (\<exists>p q. s = p @ pat @ q)"
proof (induction s)
  case Nil
  then show ?case by auto
next
  case (Cons c cs)
  show ?case
  proof
    assume "contains pat (c # cs)"
    then consider "prefix pat (c # cs)" | "contains pat cs" by auto
    then show "\<exists>p q. c # cs = p @ pat @ q"
    proof cases
      case 1
      then obtain q where "c # cs = pat @ q" by (auto simp: prefix_def)
      then have "c # cs = [] @ pat @ q" by simp
      then show ?thesis by blast
    next
      case 2
      with Cons.IH obtain p q where "cs = p @ pat @ q" by blast
      then have "c # cs = (c # p) @ pat @ q" by simp
      then show ?thesis by blast
    qed
  next
    assume "\<exists>p q. c # cs = p @ pat @ q"
    then obtain p q where pq: "c # cs = p @ pat @ q" by blast
    show "contains pat (c # cs)"
    proof (cases p)
      case Nil
      with pq have "prefix pat (c # cs)" by (simp add: prefix_def)
      then show ?thesis by simp
    next
      case (Cons a p')
      with pq have "cs = p' @ pat @ q" by simp
      with Cons.IH have "contains pat cs" by blast
      then show ?thesis by simp
    qed
  qed
qed

section \<open>The trust policy\<close>










section \<open>The response parser\<close>

lemma extract_row_SomeD:
  assumes "extract_row api cntry ex line = Inr (Some r)"
  shows "is_table_row line" and "8 \<le> length (raw_parts line)" and "6 \<le> length (parts line)"
    and "lower (parts line ! 0) \<notin> ex"
    and "is_valid_source (parts line ! 5) = Inr True"
    and "contains (lower cntry) (lower (parts line ! 1))"
    and "r = \<lparr> api_name = api, manufacturer = parts line ! 0, country = parts line ! 1,
               usdmf = yes_no (parts line ! 2), cep = yes_no (parts line ! 3),
               source_name = parts line ! 4, source_url = parts line ! 5 \<rparr>"
  using assms
  by (auto simp: extract_row_def bind_err_def index_def split: if_splits sum.splits)

lemma is_valid_source_InlD:
  "is_valid_source url = Inl e \<Longrightarrow> e = ValueError \<and> urlparse (strip url) = Inl ValueError"
  by (auto simp: is_valid_source_def urlparse_def Let_def split: if_splits sum.splits prod.splits)

lemma extract_row_InlD:
  assumes "extract_row api cntry ex line = Inl e"
  shows "is_table_row line \<and> 6 \<le> length (parts line)
         \<and> lower (parts line ! 0) \<notin> ex \<and> is_valid_source (parts line ! 5) = Inl e"
  using assms
  by (auto simp: extract_row_def bind_err_def index_def split: if_splits sum.splits)

lemma extract_rows_Inr:
  "extract_rows api cntry ex ls acc = Inr recs \<Longrightarrow>
   recs = acc @ List.map_filter
            (\<lambda>l. case extract_row api cntry ex l of Inr (Some r) \<Rightarrow> Some r | _ \<Rightarrow> None) ls"
proof (induction ls arbitrary: acc)
  case Nil
  then show ?case by (simp add: List.map_filter_simps)
next
  case (Cons l ls)
  show ?case
  proof (cases "extract_row api cntry ex l")
    case (Inl e)
    with Cons.prems show ?thesis by simp
  next
    case (Inr x)
    show ?thesis
    proof (cases x)
      case None
      with Inr Cons.prems have "extract_rows api cntry ex ls acc = Inr recs" by simp
      from Cons.IH [OF this] Inr None show ?thesis by (simp add: List.map_filter_simps)
    next
      case (Some r)
      with Inr Cons.prems have "extract_rows api cntry ex ls (acc @ [r]) = Inr recs" by simp
      from Cons.IH [OF this] Inr Some show ?thesis by (simp add: List.map_filter_simps)
    qed
  qed
qed

lemma extract_rows_Inl_iff:
  "(\<exists>e. extract_rows api cntry ex ls acc = Inl e)
   \<longleftrightarrow> (\<exists>l \<in> set ls. \<exists>e. extract_row api cntry ex l = Inl e)"
  by (induction ls arbitrary: acc) (auto split: sum.splits option.splits)

lemma extract_rows_Inl:
  "extract_rows api cntry ex ls acc = Inl e \<Longrightarrow> \<exists>l \<in> set ls. extract_row api cntry ex l = Inl e"
  by (induction ls arbitrary: acc) (auto split: sum.splits option.splits)

lemma extract_rows_mem:
  "extract_rows api cntry ex ls acc = Inr recs \<Longrightarrow> r \<in> set recs \<Longrightarrow>
   r \<in> set acc \<or> (\<exists>l \<in> set ls. extract_row api cntry ex l = Inr (Some r))"
proof (induction ls arbitrary: acc)
  case Nil
  then show ?case by simp
next
  case (Cons l ls)
  show ?case
  proof (cases "extract_row api cntry ex l")
    case (Inl e)
    with Cons.prems show ?thesis by simp
  next
    case (Inr x)
    show ?thesis
    proof (cases x)
      case None
      with Inr Cons.prems have "extract_rows api cntry ex ls acc = Inr recs" by simp
      from Cons.IH [OF this Cons.prems(2)] show ?thesis by auto
    next
      case (Some r')
      with Inr Cons.prems have "extract_rows api cntry ex ls (acc @ [r']) = Inr recs" by simp
      from Cons.IH [OF this Cons.prems(2)] Inr Some show ?thesis by auto
    qed
  qed
qed

lemma extract_rows_set:
  assumes "extract_rows api cntry ex ls [] = Inr recs" and "r \<in> set recs"
  shows "\<exists>l \<in> set ls. extract_row api cntry ex l = Inr (Some r)"
  using extract_rows_mem [OF assms] by simp

lemma extract_manufacturers_set:
  assumes "extract_manufacturers md api cntry skip = Inr recs" and "r \<in> set recs"
  shows "\<exists>l \<in> set (splitlines (or_empty md)).
           extract_row api cntry (set (map lower skip)) l = Inr (Some r)"
proof (cases md)
  case None
  with assms show ?thesis by (simp add: extract_manufacturers_def)
next
  case (Some body)
  with assms have "body \<noteq> []" by (auto simp: extract_manufacturers_def)
  with Some assms(1)
  have "extract_rows api cntry (set (map lower skip)) (splitlines body) [] = Inr recs"
    by (simp add: extract_manufacturers_def)
  from extract_rows_set [OF this assms(2)] Some show ?thesis by (simp add: or_empty_def)
qed

lemma is_valid_source_Inl_iff:
  "is_valid_source url = Inl e \<longleftrightarrow> url \<noteq> [] \<and> urlparse (strip url) = Inl e"
  by (auto simp: is_valid_source_def split: sum.splits)

lemma urlparse_InlD: "urlparse url = Inl e \<Longrightarrow> e = ValueError"
  by (auto simp: urlparse_def Let_def split: if_splits prod.splits)

lemma length_parts: "length (parts line) = length (raw_parts line) - 2"
  by (simp add: parts_def)

lemma extract_row_Inl_iff:
  "extract_row api cntry ex line = Inl e \<longleftrightarrow>
     is_table_row line \<and> 8 \<le> length (raw_parts line) \<and> lower (parts line ! 0) \<notin> ex
     \<and> parts line ! 5 \<noteq> [] \<and> urlparse (strip (parts line ! 5)) = Inl e"
proof (cases "is_table_row line \<and> 8 \<le> length (raw_parts line) \<and> lower (parts line ! 0) \<notin> ex")
  case True
  then have "8 \<le> length (raw_parts line)" by simp
  then have "6 \<le> length (parts line)" unfolding length_parts by arith
  with True have "extract_row api cntry ex line = Inl e
                  \<longleftrightarrow> is_valid_source (parts line ! 5) = Inl e"
    by (auto simp: extract_row_def bind_err_def index_def split: sum.splits)
  with True show ?thesis by (simp add: is_valid_source_Inl_iff)
next
  case False
  then have "\<not> (\<exists>e. extract_row api cntry ex line = Inl e)"
    by (auto simp: extract_row_def bind_err_def index_def length_parts split: if_splits sum.splits)
  with False show ?thesis by blast
qed

text \<open>
  C2. No record of the parser's output has a manufacturer whose lowered name is a member of
  the skip batch, whatever the other fields of its row are.
\<close>

theorem skip_batch_filtered:
  assumes "extract_manufacturers md api cntry skip_batch = Inr recs" and "r \<in> set recs"
  shows "lower (manufacturer r) \<notin> set skip_batch
         \<and> lower (manufacturer r) \<notin> set (map lower skip_batch)"
proof -
  from extract_manufacturers_set [OF assms] obtain l
    where l: "extract_row api cntry (set (map lower skip_batch)) l = Inr (Some r)" by blast
  from extract_row_SomeD(4,7) [OF l]
  have n: "lower (manufacturer r) \<notin> set (map lower skip_batch)" by simp
  have "lower (manufacturer r) \<notin> set skip_batch"
  proof
    assume "lower (manufacturer r) \<in> set skip_batch"
    then have "lower (lower (manufacturer r)) \<in> set (map lower skip_batch)" by simp
    with n show False by (simp only: lower_idem)
  qed
  with n show ?thesis by simp
qed

theorem skip_batch_filtered_witness:
  "extract_manufacturers (Some two_rows) ''Metformin'' ''India'' [''acme labs'']
     = Inr [\<lparr> api_name = ''Metformin'', manufacturer = ''Beta Pharma'',
              country = ''Indiana-based'', usdmf = ''Yes'', cep = ''No'',
              source_name = ''WHO'', source_url = ''HTTPS://who.int/b'' \<rparr>]
   \<and> lower ''Beta Pharma'' \<notin> set [''acme labs'']"
proof -
  have e: "extract_manufacturers (Some two_rows) ''Metformin'' ''India'' [''acme labs'']
     = Inr [\<lparr> api_name = ''Metformin'', manufacturer = ''Beta Pharma'',
              country = ''Indiana-based'', usdmf = ''Yes'', cep = ''No'',
              source_name = ''WHO'', source_url = ''HTTPS://who.int/b'' \<rparr>]"
    by (simp add: string_eval url_eval parser_eval two_rows_def)
  from skip_batch_filtered [OF e] e show ?thesis by simp
qed

text \<open>
  C3. Every record of the parser's output is the record of a line whose country field,
  lowered, holds the lowered requested country as a contiguous run.
\<close>

theorem country_filter:
  assumes "extract_manufacturers md api cntry skip_batch = Inr recs" and "r \<in> set recs"
  shows "\<exists>line \<in> set (splitlines (or_empty md)).
           country r = parts line ! 1
         \<and> contains (lower cntry) (lower (parts line ! 1))
         \<and> (\<exists>p q. lower (country r) = p @ lower cntry @ q)"
proof -
  from extract_manufacturers_set [OF assms] obtain l
    where m: "l \<in> set (splitlines (or_empty md))"
      and l: "extract_row api cntry (set (map lower skip_batch)) l = Inr (Some r)" by blast
  from extract_row_SomeD(7) [OF l] have c: "country r = parts l ! 1" by simp
  from extract_row_SomeD(6) [OF l] have k: "contains (lower cntry) (lower (parts l ! 1))" .
  with c have "\<exists>p q. lower (country r) = p @ lower cntry @ q" by (simp add: contains_iff)
  with m c k show ?thesis by blast
qed

theorem country_filter_witness:
  "extract_manufacturers
     (Some ''| Beta Pharma | Indiana-based | t | Unknown | WHO | HTTPS://who.int/b |'')
     ''Metformin'' ''India'' []
     = Inr [\<lparr> api_name = ''Metformin'', manufacturer = ''Beta Pharma'',
              country = ''Indiana-based'', usdmf = ''Yes'', cep = ''No'',
              source_name = ''WHO'', source_url = ''HTTPS://who.int/b'' \<rparr>]
   \<and> (\<exists>p q. ''indiana-based'' = p @ ''india'' @ q)"
proof -
  have e: "extract_manufacturers
     (Some ''| Beta Pharma | Indiana-based | t | Unknown | WHO | HTTPS://who.int/b |'')
     ''Metformin'' ''India'' []
     = Inr [\<lparr> api_name = ''Metformin'', manufacturer = ''Beta Pharma'',
              country = ''Indiana-based'', usdmf = ''Yes'', cep = ''No'',
              source_name = ''WHO'', source_url = ''HTTPS://who.int/b'' \<rparr>]"
    by (simp add: string_eval url_eval parser_eval)
  have l1: "lower ''Indiana-based'' = ''indiana-based''" by (simp add: string_eval)
  have l2: "lower ''India'' = ''india''" by (simp add: string_eval)
  from country_filter [OF e, of "\<lparr> api_name = ''Metformin'', manufacturer = ''Beta Pharma'',
              country = ''Indiana-based'', usdmf = ''Yes'', cep = ''No'',
              source_name = ''WHO'', source_url = ''HTTPS://who.int/b'' \<rparr>"]
  have "\<exists>p q. lower ''Indiana-based'' = p @ lower ''India'' @ q" by auto
  then have "\<exists>p q. ''indiana-based'' = p @ ''india'' @ q" by (simp only: l1 l2)
  with e show ?thesis by (intro conjI)
qed

text \<open>
  C4. Every record of the parser's output is the record of a line, and its \<open>usdmf\<close> field
  is \<open>Yes\<close> when field 2 of that line, trimmed and lowered, is \<open>yes\<close> or \<open>t\<close>, and
  \<open>No\<close> otherwise; likewise \<open>cep\<close> and field 3. Neither field is ever \<open>Unknown\<close>.
\<close>

theorem usdmf_cep_yes_no:
  assumes "extract_manufacturers md api cntry skip_batch = Inr recs" and "r \<in> set recs"
  shows "(\<exists>line \<in> set (splitlines (or_empty md)).
            extract_row api cntry (set (map lower skip_batch)) line = Inr (Some r)
          \<and> usdmf r = (if lower (strip (parts line ! 2)) = ''yes''
                           \<or> lower (strip (parts line ! 2)) = ''t'' then ''Yes'' else ''No'')
          \<and> cep r = (if lower (strip (parts line ! 3)) = ''yes''
                         \<or> lower (strip (parts line ! 3)) = ''t'' then ''Yes'' else ''No''))
         \<and> usdmf r \<in> {''Yes'', ''No''} \<and> cep r \<in> {''Yes'', ''No''}
         \<and> usdmf r \<noteq> ''Unknown'' \<and> cep r \<noteq> ''Unknown''"
proof -
  from extract_manufacturers_set [OF assms] obtain l
    where m: "l \<in> set (splitlines (or_empty md))"
      and l: "extract_row api cntry (set (map lower skip_batch)) l = Inr (Some r)" by blast
  from extract_row_SomeD(7) [OF l]
  have u: "usdmf r = yes_no (parts l ! 2)" and c: "cep r = yes_no (parts l ! 3)" by simp_all
  have y: "\<And>v. yes_no v = (if lower (strip v) = ''yes'' \<or> lower (strip v) = ''t''
                              then ''Yes'' else ''No'')"
    by (simp add: yes_no_def)
  from y have yn: "\<And>v. yes_no v \<in> {''Yes'', ''No''} \<and> yes_no v \<noteq> ''Unknown''" by simp
  from m l u c y [of "parts l ! 2"] y [of "parts l ! 3"]
  have "\<exists>line \<in> set (splitlines (or_empty md)).
            extract_row api cntry (set (map lower skip_batch)) line = Inr (Some r)
          \<and> usdmf r = (if lower (strip (parts line ! 2)) = ''yes''
                           \<or> lower (strip (parts line ! 2)) = ''t'' then ''Yes'' else ''No'')
          \<and> cep r = (if lower (strip (parts line ! 3)) = ''yes''
                         \<or> lower (strip (parts line ! 3)) = ''t'' then ''Yes'' else ''No'')"
    by (intro bexI [of _ l]) simp_all
  with u c yn [of "parts l ! 2"] yn [of "parts l ! 3"] show ?thesis by simp
qed

theorem usdmf_cep_yes_no_witness:
  "extract_manufacturers
     (Some ''| Beta Pharma | Indiana-based | t | Unknown | WHO | HTTPS://who.int/b |'')
     ''Metformin'' ''India'' []
     = Inr [\<lparr> api_name = ''Metformin'', manufacturer = ''Beta Pharma'',
              country = ''Indiana-based'', usdmf = ''Yes'', cep = ''No'',
              source_name = ''WHO'', source_url = ''HTTPS://who.int/b'' \<rparr>]
   \<and> ''No'' \<noteq> ''Unknown''"
proof -
  have e: "extract_manufacturers
     (Some ''| Beta Pharma | Indiana-based | t | Unknown | WHO | HTTPS://who.int/b |'')
     ''Metformin'' ''India'' []
     = Inr [\<lparr> api_name = ''Metformin'', manufacturer = ''Beta Pharma'',
              country = ''Indiana-based'', usdmf = ''Yes'', cep = ''No'',
              source_name = ''WHO'', source_url = ''HTTPS://who.int/b'' \<rparr>]"
    by (simp add: string_eval url_eval parser_eval)
  from usdmf_cep_yes_no [OF e] e show ?thesis by simp
qed

text \<open>
  C9. The parser is not total. On a row whose source URL opens a bracket and does not
  close it, the URL parser raises \<open>ValueError\<close>, \<open>_is_valid_source\<close> lets it through and
  so does the parser; a good row ahead of that row is lost with it, and the batch yields
  nothing.
\<close>

theorem extract_manufacturers_raises:
  "extract_manufacturers (Some ''| Acme | India | yes | no | FDA | https://[fda.gov |'')
     ''Metformin'' ''India'' [] = Inl ValueError
   \<and> is_valid_source ''https://[fda.gov'' = Inl ValueError
   \<and> extract_manufacturers (Some broken_rows) ''Metformin'' ''India'' [] = Inl ValueError
   \<and> fst (discover_with_groq (memory_service (Some broken_rows)) ''Metformin'' ''India'' []
            \<lparr> world = [], trace = [] \<rparr>) = []"
proof -
  have v: "is_valid_source ''https://[fda.gov'' = Inl ValueError"
    by (simp add: string_eval url_eval)
  have g: "is_valid_source ''https://www.fda.gov/a'' = Inr True"
    by (simp add: string_eval url_eval)
  have 1: "extract_manufacturers (Some ''| Acme | India | yes | no | FDA | https://[fda.gov |'')
     ''Metformin'' ''India'' [] = Inl ValueError"
    by (simp add: string_eval parser_eval v)
  have 3: "extract_manufacturers (Some broken_rows) ''Metformin'' ''India'' [] = Inl ValueError"
    by (simp add: string_eval parser_eval broken_rows_def v g)
  have t: "truthy (Some broken_rows)" by (simp add: truthy_def broken_rows_def)
  have 4: "fst (discover_with_groq (memory_service (Some broken_rows)) ''Metformin'' ''India'' []
            \<lparr> world = [], trace = [] \<rparr>) = []"
    by (simp add: discover_with_groq_def run_groq_extraction_def memory_service_def
        log_def 3 t)
  from 1 v 3 4 show ?thesis by (intro conjI)
qed

text \<open>
  What does hold of the parser. It raises neither \<open>IndexError\<close> nor
  \<open>RequestException\<close>: every index it reads is in range. It raises \<open>ValueError\<close> exactly
  when the body of its loop does on one of the lines, and that is exactly when the line is
  a table row of eight segments or more whose manufacturer is not in the skip batch and
  whose source URL is not empty and makes the URL parser raise. When it returns, its
  records are those of the lines, in the order of the lines.
\<close>

lemma extract_manufacturers_outcome:
  "extract_manufacturers md api cntry skip_batch \<noteq> Inl IndexError
   \<and> extract_manufacturers md api cntry skip_batch \<noteq> Inl RequestException
   \<and> (extract_manufacturers md api cntry skip_batch = Inl ValueError \<longleftrightarrow>
        (\<exists>line \<in> set (splitlines (or_empty md)).
            extract_row api cntry (set (map lower skip_batch)) line = Inl ValueError))
   \<and> (\<forall>line. extract_row api cntry (set (map lower skip_batch)) line = Inl ValueError \<longleftrightarrow>
          is_table_row line \<and> 8 \<le> length (raw_parts line)
          \<and> lower (parts line ! 0) \<notin> set (map lower skip_batch)
          \<and> parts line ! 5 \<noteq> []
          \<and> urlparse (strip (parts line ! 5)) = Inl ValueError)
   \<and> (\<forall>recs. extract_manufacturers md api cntry skip_batch = Inr recs \<longrightarrow>
          recs = List.map_filter
                   (\<lambda>l. case extract_row api cntry (set (map lower skip_batch)) l of
                          Inr (Some r) \<Rightarrow> Some r | _ \<Rightarrow> None)
                   (splitlines (or_empty md)))"
proof -
  let ?ex = "set (map lower skip_batch)"
  let ?ls = "splitlines (or_empty md)"
  have row: "\<And>line e. extract_row api cntry ?ex line = Inl e \<Longrightarrow> e = ValueError"
    using extract_row_Inl_iff urlparse_InlD by blast
  have 4: "\<forall>line. extract_row api cntry ?ex line = Inl ValueError \<longleftrightarrow>
          is_table_row line \<and> 8 \<le> length (raw_parts line)
          \<and> lower (parts line ! 0) \<notin> ?ex
          \<and> parts line ! 5 \<noteq> []
          \<and> urlparse (strip (parts line ! 5)) = Inl ValueError"
    by (simp only: extract_row_Inl_iff) simp
  have rows: "extract_manufacturers md api cntry skip_batch
              = extract_rows api cntry ?ex ?ls []"
  proof (cases md)
    case None
    then show ?thesis by (simp add: extract_manufacturers_def or_empty_def splitlines_def)
  next
    case (Some body)
    then show ?thesis
      by (cases "body = []") (simp_all add: extract_manufacturers_def or_empty_def splitlines_def)
  qed
  have err: "\<And>e. extract_manufacturers md api cntry skip_batch = Inl e \<Longrightarrow> e = ValueError"
  proof -
    fix e
    assume "extract_manufacturers md api cntry skip_batch = Inl e"
    with rows have "extract_rows api cntry ?ex ?ls [] = Inl e" by simp
    from extract_rows_Inl [OF this] row show "e = ValueError" by blast
  qed
  have 1: "extract_manufacturers md api cntry skip_batch \<noteq> Inl IndexError"
    using err by fastforce
  have 2: "extract_manufacturers md api cntry skip_batch \<noteq> Inl RequestException"
    using err by fastforce
  have 3: "extract_manufacturers md api cntry skip_batch = Inl ValueError \<longleftrightarrow>
        (\<exists>line \<in> set ?ls. extract_row api cntry ?ex line = Inl ValueError)"
  proof
    assume "extract_manufacturers md api cntry skip_batch = Inl ValueError"
    with rows have "extract_rows api cntry ?ex ?ls [] = Inl ValueError" by simp
    then show "\<exists>line \<in> set ?ls. extract_row api cntry ?ex line = Inl ValueError"
      by (rule extract_rows_Inl)
  next
    assume "\<exists>line \<in> set ?ls. extract_row api cntry ?ex line = Inl ValueError"
    then have "\<exists>l \<in> set ?ls. \<exists>e. extract_row api cntry ?ex l = Inl e" by blast
    with extract_rows_Inl_iff [of api cntry ?ex ?ls "[]"] rows
    obtain e where "extract_manufacturers md api cntry skip_batch = Inl e" by auto
    with err show "extract_manufacturers md api cntry skip_batch = Inl ValueError" by blast
  qed
  have 5: "\<forall>recs. extract_manufacturers md api cntry skip_batch = Inr recs \<longrightarrow>
          recs = List.map_filter
                   (\<lambda>l. case extract_row api cntry ?ex l of
                          Inr (Some r) \<Rightarrow> Some r | _ \<Rightarrow> None) ?ls"
    using rows extract_rows_Inr [of api cntry ?ex ?ls "[]"] by simp
  from 1 2 3 4 5 show ?thesis by (intro conjI)
qed

text \<open>
  C10. For every ingredient and every skip batch that does not hold the empty name, the
  parser turns the row \<open>|  | India | yes | no | FDA | https://fda.gov/x |\<close> into a
  record whose manufacturer is the empty string.
\<close>

theorem empty_manufacturer_emitted:
  assumes "[] \<notin> set skip_batch"
  shows "extract_manufacturers (Some ''|  | India | yes | no | FDA | https://fda.gov/x |'')
           api ''India'' skip_batch
         = Inr [\<lparr> api_name = api, manufacturer = [], country = ''India'', usdmf = ''Yes'',
                  cep = ''No'', source_name = ''FDA'', source_url = ''https://fda.gov/x'' \<rparr>]"
proof -
  have v: "is_valid_source ''https://fda.gov/x'' = Inr True"
    by (simp add: string_eval url_eval)
  from assms have n: "[] \<notin> lower ` set skip_batch" by (auto simp: lower_def)
  show ?thesis
    using n by (simp add: string_eval parser_eval v)
qed

theorem empty_manufacturer_emitted_witness:
  "[] \<notin> set [''acme labs'']
   \<and> extract_manufacturers (Some ''|  | India | yes | no | FDA | https://fda.gov/x |'')
         ''Metformin'' ''India'' [''acme labs'']
     = Inr [\<lparr> api_name = ''Metformin'', manufacturer = [], country = ''India'',
              usdmf = ''Yes'', cep = ''No'', source_name = ''FDA'',
              source_url = ''https://fda.gov/x'' \<rparr>]"
proof -
  have h: "[] \<notin> set [''acme labs'']" by simp
  from empty_manufacturer_emitted [OF h, of "''Metformin''"] h show ?thesis by simp
qed

section \<open>The query planner\<close>

lemma concat_slices: "concat (map (\<lambda>k. take m (drop (k * m) xs)) [0 ..< n]) = take (n * m) xs"
proof (induction n)
  case 0
  then show ?case by simp
next
  case (Suc n)
  have "take (n * m) xs @ take m (drop (n * m) xs) = take (n * m + m) xs"
    by (simp add: take_add)
  with Suc show ?case by (simp add: add.commute)
qed

lemma slices_eq:
  "map (\<lambda>i. take 30 (drop i xs)) (range_step (length xs) 30)
   = map (\<lambda>k. take 30 (drop (k * 30) xs)) [0 ..< (length xs + 29) div 30]"
  by (simp add: range_step_def comp_def add.commute)

lemma batches_Cons:
  assumes "xs \<noteq> []"
  shows "batches xs = map (\<lambda>k. take 30 (drop (k * 30) xs)) [0 ..< (length xs + 29) div 30]"
proof -
  from assms have "0 < length xs" by simp
  then have "0 < (length xs + 29) div 30" by presburger
  then have "[0 ..< (length xs + 29) div 30] \<noteq> []" by simp
  then have "map (\<lambda>k. take 30 (drop (k * 30) xs)) [0 ..< (length xs + 29) div 30] \<noteq> []"
    by (simp del: upt_eq_Nil_conv)
  then show ?thesis
    unfolding batches_def Let_def slices_eq by (simp only: if_False)
qed

lemma concat_batches: "concat (batches xs) = xs"
proof (cases "xs = []")
  case True
  then show ?thesis by (simp add: batches_def range_step_def)
next
  case False
  have "length xs \<le> (length xs + 29) div 30 * 30" by presburger
  then have "take ((length xs + 29) div 30 * 30) xs = xs" by simp
  then show ?thesis
    by (simp only: batches_Cons [OF False] concat_slices)
qed

lemma batches_size: "b \<in> set (batches xs) \<Longrightarrow> length b \<le> 30"
  by (auto simp: batches_def Let_def split: if_splits)

lemma batches_Nil: "batches [] = [[]]"
  by (simp add: batches_def range_step_def)

lemma batches_nth:
  assumes "xs \<noteq> []" and "k < length (batches xs)"
  shows "batches xs ! k = take 30 (drop (k * 30) xs)"
  using assms(2) unfolding batches_Cons [OF assms(1)] by simp

lemma length_batches: "length (batches xs) = (if xs = [] then 1 else (length xs + 29) div 30)"
  by (cases "xs = []") (simp_all add: batches_Nil batches_Cons)

lemma batches_65: "length xs = 65 \<Longrightarrow> map length (batches xs) = [30, 30, 5]"
  by (simp add: batches_def Let_def range_step_def upt_rec)

text \<open>
  C5. The batches of a skip list, concatenated, are the skip list; each has at most 30
  names; the batch at position \<open>k\<close> is the slice of 30 names from index \<open>30 k\<close>; the
  empty skip list has the one empty batch; a skip list of 65 names has three batches, of
  30, 30 and 5 names.
\<close>

theorem batches_partition:
  "concat (batches xs) = xs
   \<and> (\<forall>b \<in> set (batches xs). length b \<le> 30)
   \<and> (\<forall>k < length (batches xs). batches xs ! k = take 30 (drop (k * 30) xs))
   \<and> length (batches xs) = (if xs = [] then 1 else (length xs + 29) div 30)
   \<and> (xs = [] \<longrightarrow> batches xs = [[]])
   \<and> (length xs = 65 \<longrightarrow> map length (batches xs) = [30, 30, 5])"
proof -
  have "\<forall>k < length (batches xs). batches xs ! k = take 30 (drop (k * 30) xs)"
  proof (cases "xs = []")
    case True
    then show ?thesis by (simp add: batches_Nil)
  next
    case False
    then show ?thesis by (simp add: batches_nth)
  qed
  then show ?thesis
    using concat_batches [of xs] batches_size [of _ xs] length_batches [of xs]
      batches_Nil batches_65 [of xs]
    by auto
qed

theorem batches_partition_witness:
  "map length (batches [0 ..< 65 :: nat]) = [30, 30, 5]
   \<and> concat (batches [0 ..< 65 :: nat]) = [0 ..< 65]
   \<and> batches ([] :: nat list) = [[]]"
  using batches_partition [of "[0 ..< 65 :: nat]"] batches_partition [of "[] :: nat list"]
  by simp

section \<open>The discovery orchestrator\<close>

lemma strip_all_space:
  assumes "\<forall>ch \<in> set s. is_space ch"
  shows "strip s = []"
  using assms by (auto simp: strip_def lstrip_def rstrip_def dest: set_dropWhileD)





text \<open>
  C7. When the name of the ingredient or of the country is \<open>None\<close>, empty or made of
  white space only, \<open>discover\<close> returns the failure with its message and leaves the
  state as it was: the world and the trace of calls are unchanged. Otherwise it returns a
  success.
\<close>

theorem discover_validation:
  "strip (or_empty None) = []
   \<and> ((\<forall>ch \<in> set s. is_space ch) \<longrightarrow> strip (or_empty (Some s)) = [])
   \<and> (strip (or_empty a) = [] \<or> strip (or_empty c) = [] \<longrightarrow>
        discover self a c st
        = (Failure ''API name and country are required for discovery.'', st))
   \<and> (strip (or_empty a) \<noteq> [] \<and> strip (or_empty c) \<noteq> [] \<longrightarrow>
        (\<exists>existing new refreshed n st'.
            discover self a c st = (Success existing new refreshed n, st')))"
proof -
  have 1: "strip (or_empty None) = []"
    by (simp add: or_empty_def strip_def lstrip_def rstrip_def)
  have 2: "(\<forall>ch \<in> set s. is_space ch) \<longrightarrow> strip (or_empty (Some s)) = []"
    by (simp add: or_empty_def strip_all_space)
  have 3: "strip (or_empty a) = [] \<or> strip (or_empty c) = [] \<longrightarrow>
        discover self a c st
        = (Failure ''API name and country are required for discovery.'', st)"
    by (auto simp: discover_def Let_def)
  have 4: "strip (or_empty a) \<noteq> [] \<and> strip (or_empty c) \<noteq> [] \<longrightarrow>
        (\<exists>existing new refreshed n st'.
            discover self a c st = (Success existing new refreshed n, st'))"
    by (simp add: discover_def Let_def split: prod.splits)
  from 1 2 3 4 show ?thesis by blast
qed

theorem discover_validation_witness:
  "discover (memory_service (Some two_rows)) (Some ''  '') (Some ''India'')
       \<lparr> world = [], trace = [] \<rparr>
     = (Failure ''API name and country are required for discovery.'',
        \<lparr> world = [], trace = [] \<rparr>)
   \<and> discover (memory_service (Some two_rows)) (Some ''Metformin'') None
       \<lparr> world = [], trace = [] \<rparr>
     = (Failure ''API name and country are required for discovery.'',
        \<lparr> world = [], trace = [] \<rparr>)
   \<and> (\<exists>existing new refreshed n st'.
         discover (memory_service (Some two_rows)) (Some ''Metformin'') (Some ''India'')
           \<lparr> world = [], trace = [] \<rparr>
         = (Success existing new refreshed n, st'))"
proof -
  have a: "strip (or_empty (Some ''  '')) = []"
    by (simp add: string_eval or_empty_def)
  have b: "strip (or_empty None) = []"
    by (simp add: string_eval or_empty_def)
  have c: "strip (or_empty (Some ''Metformin'')) \<noteq> []"
    by (simp add: string_eval or_empty_def)
  have d: "strip (or_empty (Some ''India'')) \<noteq> []"
    by (simp add: string_eval or_empty_def)
  from a b c d
    discover_validation [of "[]" "Some ''  ''" "Some ''India''"
      "memory_service (Some two_rows)" "\<lparr> world = [], trace = [] \<rparr>"]
    discover_validation [of "[]" "Some ''Metformin''" None
      "memory_service (Some two_rows)" "\<lparr> world = [], trace = [] \<rparr>"]
    discover_validation [of "[]" "Some ''Metformin''" "Some ''India''"
      "memory_service (Some two_rows)" "\<lparr> world = [], trace = [] \<rparr>"]
  show ?thesis by (intro conjI) blast+
qed



lemma run_groq_extraction_trace:
  assumes "groq_client self = Some create"
  shows "trace (snd (run_groq_extraction self api cntry b st)) = trace st @ [ModelCall b]"
proof -
  define prompt where "prompt = build_prompt api cntry
     (if b \<noteq> [] then join '', '' (take 10 b) else ''None'')
     (join '', '' (sort trusted_domains))"
  obtain response w where r: "create (world st) prompt = (response, w)"
    by (cases "create (world st) prompt")
  show ?thesis
    using assms r
    by (cases response)
       (simp_all add: run_groq_extraction_def Let_def prompt_def [symmetric] log_def)
qed

lemma discover_with_groq_trace:
  assumes "groq_client self = Some create"
  shows "trace (snd (discover_with_groq self api cntry b st)) = trace st @ [ModelCall b]"
proof -
  obtain out st' where r: "run_groq_extraction self api cntry b st = (out, st')"
    by (cases "run_groq_extraction self api cntry b st")
  from run_groq_extraction_trace [OF assms, of api cntry b st] r
  have "trace st' = trace st @ [ModelCall b]" by simp
  then show ?thesis
    using assms r by (simp add: discover_with_groq_def split: sum.splits)
qed

lemma discover_with_groq_found:
  assumes "discover_with_groq self api cntry b st = (found, st')" and "found \<noteq> []"
  shows "\<exists>create. groq_client self = Some create"
  using assms by (cases "groq_client self") (simp_all add: discover_with_groq_def)

lemma discover_batches_append:
  assumes "discover_batches self api cntry pre [] st = ([], st1)"
  shows "discover_batches self api cntry (pre @ rest) [] st
         = discover_batches self api cntry rest [] st1"
  using assms
proof (induction pre arbitrary: st)
  case Nil
  then show ?case by simp
next
  case (Cons b pre)
  obtain found st' where d: "discover_with_groq self api cntry b st = (found, st')"
    by (cases "discover_with_groq self api cntry b st")
  show ?case
  proof (cases "found = []")
    case True
    with d Cons.prems have "discover_batches self api cntry pre [] st' = ([], st1)" by simp
    from Cons.IH [OF this] d True show ?thesis by simp
  next
    case False
    with d Cons.prems show ?thesis by simp
  qed
qed

lemma discover_batches_trace:
  assumes "groq_client self = Some create"
    and "discover_batches self api cntry pre [] st = ([], st1)"
  shows "trace st1 = trace st @ map ModelCall pre"
  using assms(2)
proof (induction pre arbitrary: st)
  case Nil
  then show ?case by simp
next
  case (Cons b pre)
  obtain found st' where d: "discover_with_groq self api cntry b st = (found, st')"
    by (cases "discover_with_groq self api cntry b st")
  from discover_with_groq_trace [OF assms(1), of api cntry b st] d
  have t: "trace st' = trace st @ [ModelCall b]" by simp
  show ?case
  proof (cases "found = []")
    case True
    with d Cons.prems have "discover_batches self api cntry pre [] st' = ([], st1)" by simp
    from Cons.IH [OF this] t show ?thesis by simp
  next
    case False
    with d Cons.prems show ?thesis by simp
  qed
qed

lemma model_calls_append: "model_calls (xs @ ys) = model_calls xs @ model_calls ys"
  by (induction xs rule: model_calls.induct) simp_all

lemma model_calls_map: "model_calls (map ModelCall bs) = bs"
  by (induction bs) simp_all

lemma fetch_model_calls:
  "model_calls (trace (snd (fetch_existing_records self api cntry st))) = model_calls (trace st)"
  by (simp add: fetch_existing_records_def log_def model_calls_append split: sum.splits)

lemma service_insert_model_calls:
  "model_calls (trace (snd (service_insert self records label st))) = model_calls (trace st)"
  by (simp add: service_insert_def log_def model_calls_append split: prod.splits)

lemma insert_model_calls:
  "model_calls (trace (snd (insert_records self records label st))) = model_calls (trace st)"
proof -
  have "\<And>st' :: 'a run_state. model_calls (trace (log RestPost st')) = model_calls (trace st')"
    by (simp add: log_def model_calls_append)
  then show ?thesis
    by (simp add: insert_records_def Let_def service_insert_model_calls
        split: prod.splits sum.splits)
qed

text \<open>
  C6. In a run of \<open>discover\<close> whose batches are \<open>pre @ b # post\<close>, where the batches of
  \<open>pre\<close> yield nothing and \<open>b\<close> yields the records \<open>found\<close>, not none: the records
  handed to the store are \<open>found\<close>, and the model calls of the run are those of
  \<open>pre\<close> and \<open>b\<close>, one each and in this order, none for \<open>post\<close>.
\<close>

theorem discover_short_circuit:
  assumes "strip (or_empty a) = api" and "api \<noteq> []"
    and "strip (or_empty c) = cntry" and "cntry \<noteq> []"
    and "fetch_existing_records self api cntry st = (existing, st1)"
    and "batches (skip_list existing) = pre @ b # post"
    and "discover_batches self api cntry pre [] st1 = ([], st2)"
    and "discover_with_groq self api cntry b st2 = (found, st3)"
    and "found \<noteq> []"
    and "insert_records self found ''groq_discovery'' st3 = (ins, st4)"
    and "fetch_existing_records self api cntry st4 = (refreshed, st5)"
  shows "discover self a c st = (Success existing (rows ins) refreshed (inserted ins), st5)
         \<and> discover_batches self api cntry (pre @ b # post) [] st1 = (found, st3)
         \<and> trace st3 = trace st1 @ map ModelCall (pre @ [b])
         \<and> model_calls (trace st5) = model_calls (trace st) @ pre @ [b]"
proof -
  from discover_with_groq_found [OF assms(8,9)] obtain create
    where cl: "groq_client self = Some create" by blast
  have "discover_batches self api cntry (pre @ b # post) [] st1
        = discover_batches self api cntry (b # post) [] st2"
    by (rule discover_batches_append [OF assms(7)])
  also have "\<dots> = (found, st3)" using assms(8,9) by simp
  finally have r: "discover_batches self api cntry (pre @ b # post) [] st1 = (found, st3)" .
  from discover_batches_trace [OF cl assms(7)]
  have "trace st2 = trace st1 @ map ModelCall pre" .
  moreover from discover_with_groq_trace [OF cl, of api cntry b st2] assms(8)
  have "trace st3 = trace st2 @ [ModelCall b]" by simp
  ultimately have t: "trace st3 = trace st1 @ map ModelCall (pre @ [b])" by simp
  have d: "discover self a c st = (Success existing (rows ins) refreshed (inserted ins), st5)"
    using assms(1-6,9-11) r by (simp add: discover_def Let_def)
  from fetch_model_calls [of self api cntry st] assms(5)
  have m1: "model_calls (trace st1) = model_calls (trace st)" by simp
  from insert_model_calls [of self found "''groq_discovery''" st3] assms(10)
  have m4: "model_calls (trace st4) = model_calls (trace st3)" by simp
  from fetch_model_calls [of self api cntry st4] assms(11)
  have m5: "model_calls (trace st5) = model_calls (trace st4)" by simp
  from t have "model_calls (trace st3) = model_calls (trace st1) @ pre @ [b]"
    by (simp only: model_calls_append model_calls_map)
  with m1 m4 m5 have "model_calls (trace st5) = model_calls (trace st) @ pre @ [b]" by simp
  with d r t show ?thesis by simp
qed

theorem discover_short_circuit_witness:
  "batches (skip_list known_rows)
     = [take 30 known_names, take 30 (drop 30 known_names), drop 60 known_names]
   \<and> model_calls (trace (snd (discover (memory_service (Some two_rows))
         (Some ''Metformin'') (Some ''India'') \<lparr> world = known_rows, trace = [] \<rparr>)))
     = [take 30 known_names, take 30 (drop 30 known_names)]"
proof -
  let ?svc = "memory_service (Some two_rows)"
  let ?b1 = "take 30 known_names"
  let ?b2 = "take 30 (drop 30 known_names)"
  let ?found = "[\<lparr> api_name = ''Metformin'', manufacturer = ''Acme Labs'', country = ''India'',
                   usdmf = ''Yes'', cep = ''No'', source_name = ''FDA'',
                   source_url = ''https://www.fda.gov/a'' \<rparr>,
                 \<lparr> api_name = ''Metformin'', manufacturer = ''Beta Pharma'',
                   country = ''Indiana-based'', usdmf = ''Yes'', cep = ''No'',
                   source_name = ''WHO'', source_url = ''HTTPS://who.int/b'' \<rparr>]"
  let ?rows = "map (\<lambda>r. stored_row r ''groq_discovery'') ?found"
  let ?st = "\<lparr> world = known_rows, trace = [] \<rparr>"
  let ?st1 = "\<lparr> world = known_rows, trace = [ServiceQuery] \<rparr>"
  let ?st2 = "\<lparr> world = known_rows, trace = [ServiceQuery, ModelCall ?b1] \<rparr>"
  let ?st3 = "\<lparr> world = known_rows, trace = [ServiceQuery, ModelCall ?b1, ModelCall ?b2] \<rparr>"
  let ?st4 = "\<lparr> world = known_rows @ ?rows,
               trace = [ServiceQuery, ModelCall ?b1, ModelCall ?b2, ServiceInsert] \<rparr>"
  let ?st5 = "\<lparr> world = known_rows @ ?rows,
               trace = [ServiceQuery, ModelCall ?b1, ModelCall ?b2, ServiceInsert,
                        ServiceQuery] \<rparr>"
  have "map (\<lambda>r. lower (strip (or_empty (get r ''manufacturer''))))
          (filter (\<lambda>r. truthy (get r ''manufacturer'')) known_rows) = known_names"
    by (simp add: string_eval known_rows_def known_names_def get_def truthy_def or_empty_def)
  then have sl: "skip_list known_rows = known_names"
    unfolding skip_list_def
    by (simp add: sorted_list_of_set_sort_remdups known_names_def)
  have h1: "strip (or_empty (Some ''Metformin'')) = ''Metformin''"
    by (simp add: string_eval or_empty_def)
  have h2: "''Metformin'' \<noteq> []" by simp
  have h3: "strip (or_empty (Some ''India'')) = ''India''"
    by (simp add: string_eval or_empty_def)
  have h4: "''India'' \<noteq> []" by simp
  have h5: "fetch_existing_records ?svc ''Metformin'' ''India'' ?st = (known_rows, ?st1)"
    by (simp add: memory_eval)
  have "length known_names = 61" by (simp add: known_names_def)
  then have "batches known_names = [?b1] @ ?b2 # [drop 60 known_names]"
    by (simp add: batches_def range_step_def upt_rec Let_def)
  then have h6: "batches (skip_list known_rows) = [?b1] @ ?b2 # [drop 60 known_names]"
    by (simp only: sl)
  have v1: "is_valid_source ''https://www.fda.gov/a'' = Inr True"
    by (simp add: string_eval url_eval)
  have v2: "is_valid_source ''HTTPS://who.int/b'' = Inr True"
    by (simp add: string_eval url_eval)
  have e1: "extract_manufacturers (Some two_rows) ''Metformin'' ''India'' ?b1 = Inr []"
    by (simp add: string_eval parser_eval two_rows_def known_names_def)
  have e2: "extract_manufacturers (Some two_rows) ''Metformin'' ''India'' ?b2 = Inr ?found"
    by (simp add: string_eval parser_eval two_rows_def known_names_def v1 v2)
  have tr: "truthy (Some two_rows)" by (simp add: truthy_def two_rows_def)
  have h7: "discover_batches ?svc ''Metformin'' ''India'' [?b1] [] ?st1 = ([], ?st2)"
    by (simp add: discover_with_groq_def run_groq_extraction_def memory_service_def
        log_def e1 tr)
  have h8: "discover_with_groq ?svc ''Metformin'' ''India'' ?b2 ?st2 = (?found, ?st3)"
    by (simp add: discover_with_groq_def run_groq_extraction_def memory_service_def
        log_def e2 tr)
  have h9: "?found \<noteq> []" by simp
  have h10: "insert_records ?svc ?found ''groq_discovery'' ?st3
             = (\<lparr> inserted = 2, rows = ?rows \<rparr>, ?st4)"
    by (simp add: memory_eval)
  have h11: "fetch_existing_records ?svc ''Metformin'' ''India'' ?st4
             = (known_rows @ ?rows, ?st5)"
    by (simp add: memory_eval)
  from discover_short_circuit [OF h1 h2 h3 h4 h5 h6 h7 h8 h9 h10 h11]
  have "model_calls (trace (snd (discover ?svc (Some ''Metformin'') (Some ''India'') ?st)))
        = model_calls (trace ?st) @ [?b1] @ [?b2]"
    by simp
  with h6 show ?thesis by simp
qed

end
